theory Spec2Isabelle
  imports Main
begin

section \<open>A shallow embedding of circuitbreaker.go\<close>

text \<open>
  The breaker of \<^verbatim>\<open>circuitbreaker.go\<close> is modelled function by function. What
  the Go code reads from outside during one \<^verbatim>\<open>Call\<close> (the clock, the outcome of
  the \<^verbatim>\<open>select\<close> between the service's goroutine and the timer, the value
  the fallback returns) is an explicit argument, the record \<open>world\<close>; what it does to the
  outside (starting the service, calling the fallback, firing hooks) is a list of
  \<open>event\<close>s in the order of execution. The breaker is passed in and returned updated.

  Assumed of the collaborators, which are not code of the breaker: the fallback returns
  when called, the hooks return, and neither the callables nor the hooks write the
  breaker's fields.
\<close>

subsection \<open>Integers, durations and instants\<close>

text \<open>
  Go's \<^verbatim>\<open>int\<close> (on 64-bit platforms) and \<^verbatim>\<open>time.Duration\<close> (an
  \<^verbatim>\<open>int64\<close> count of nanoseconds) are integers in \<open>[-2^63, 2^63)\<close> whose
  arithmetic wraps around; \<open>wrap64\<close> is that wrap-around. An instant
  (\<^verbatim>\<open>time.Time\<close>) is the number of nanoseconds since the zero value
  \<^verbatim>\<open>time.Time{}\<close>. \<^verbatim>\<open>t.Sub(u)\<close> is the difference as a Duration, and the
  maximum (minimum) Duration when the difference does not fit (package time).
\<close>

type_synonym Duration = int
type_synonym Time = int

definition wrap64 :: "int \<Rightarrow> int" where
  "wrap64 x = (x + 2 ^ 63) mod 2 ^ 64 - 2 ^ 63"

definition maxDuration :: Duration where
  "maxDuration = 2 ^ 63 - 1"

definition minDuration :: Duration where
  "minDuration = - (2 ^ 63)"

definition Millisecond :: Duration where
  "Millisecond = 1000000"

definition zeroTime :: Time where
  "zeroTime = 0"

definition Sub :: "Time \<Rightarrow> Time \<Rightarrow> Duration" where
  "Sub t u =
     (if t - u > maxDuration then maxDuration
      else if t - u < minDuration then minDuration
      else t - u)"

text \<open>The verb \<^verbatim>\<open>%d\<close> of package fmt: an integer in decimal.\<close>

definition digit :: "nat \<Rightarrow> char" where
  "digit d =
     (if d = 0 then CHR ''0'' else if d = 1 then CHR ''1'' else if d = 2 then CHR ''2''
      else if d = 3 then CHR ''3'' else if d = 4 then CHR ''4'' else if d = 5 then CHR ''5''
      else if d = 6 then CHR ''6'' else if d = 7 then CHR ''7'' else if d = 8 then CHR ''8''
      else CHR ''9'')"

fun digits :: "nat \<Rightarrow> string" where
  "digits n = (if n < 10 then [digit n] else digits (n div 10) @ [digit (n mod 10)])"

declare digits.simps [simp del]

definition fmt_d :: "int \<Rightarrow> string" where
  "fmt_d i = (if i < 0 then ''-'' @ digits (nat (- i)) else digits (nat i))"

subsection \<open>Constants and types\<close>

definition DefautTimeout :: Duration where
  "DefautTimeout = 2000"

definition DefaultRetryTimePeriod :: Duration where
  "DefaultRetryTimePeriod = 3000"

definition DefautlFailureThreshold :: int where
  "DefautlFailureThreshold = 2"

text \<open>
  \<^verbatim>\<open>CircuitState\<close> is an \<^verbatim>\<open>int\<close> with three named values (1, 2, 3);
  \<open>InvalidState\<close> stands for every other value, which the \<^verbatim>\<open>default\<close>
  branches of the source handle. The other values are not told apart; \<^verbatim>\<open>State\<close>
  returns none of them, so \<^verbatim>\<open>Call\<close> never passes one on.
\<close>

datatype CircuitState = IsClosed | IsHalfOpen | IsOpen | InvalidState

fun ToString :: "CircuitState \<Rightarrow> string" where
  "ToString IsClosed = ''closed''"
| "ToString IsHalfOpen = ''half-open''"
| "ToString IsOpen = ''open''"
| "ToString InvalidState = ''invalid''"

text \<open>
  An \<^verbatim>\<open>error\<close> is either made by \<^verbatim>\<open>fmt.Errorf\<close> (or by the service: any
  error with a message) or a \<^verbatim>\<open>CallingError\<close> around a cause; \<open>Error_of\<close> is
  the method \<^verbatim>\<open>Error()\<close>. A nil error is \<open>None\<close>.
\<close>

datatype error = Errorf string | CallingError (Cause: error)

fun Error_of :: "error \<Rightarrow> string" where
  "Error_of (Errorf s) = s"
| "Error_of (CallingError c) = ''Error when calling service: '' @ Error_of c"

text \<open>
  A value of type \<^verbatim>\<open>interface{}\<close> is \<open>None\<close> (nil) or \<open>Some\<close> content. A
  function value (\<^verbatim>\<open>Callable\<close>, \<^verbatim>\<open>CircuitEvent\<close>) is nil (\<open>None\<close>) or some
  function; the model never looks inside it, so its type is a parameter: \<open>'f\<close> for
  callables, \<open>'h\<close> for hooks.
\<close>

record ('f, 'h) CircuitSettings =
  Service :: "'f option"
  Fallback :: "'f option"
  Timeout :: Duration
  RetryTimePeriod :: Duration
  FailureThreshold :: int
  OnTrip :: "'h option"
  OnReset :: "'h option"
  OnStateChange :: "'h option"

record 'a callableResponse =
  Content :: "'a option"
  Error :: "error option"

record ('f, 'h) CircuitBreaker =
  Settings :: "('f, 'h) CircuitSettings"
  LastFailureTime :: Time
  FailureCount :: int
  FailureRecord :: "string list"

subsection \<open>The outside world of one Call\<close>

text \<open>
  \<open>selected\<close> is the case of the \<^verbatim>\<open>select\<close> statement in
  \<^verbatim>\<open>callService\<close> that fires: the service's goroutine delivered a response
  first, or the timer did.
\<close>

datatype 'a selected = FromResponseChannel "'a callableResponse" | FromTimeAfter

record 'a world =
  now_State_pre :: Time
  selected :: "'a selected"
  fallback_returns :: "'a callableResponse"
  now_recordFailure :: Time
  now_State_post :: Time

datatype event =
  ServiceStarted | FallbackCalled | OnStateChangeCalled | OnTripCalled | OnResetCalled

text \<open>Calling a nil function value panics; an unrecovered panic ends the program.\<close>

datatype panic = NilFuncCall

subsection \<open>The functions of the breaker\<close>

definition NewCircuitBreaker ::
  "('f, 'h) CircuitSettings \<Rightarrow> error + ('f, 'h) CircuitBreaker" where
  "NewCircuitBreaker settings =
     (if Service settings = None
      then Inl (Errorf ''You must provide a service to be called'')
      else
        let settings1 = (if Timeout settings = 0
                         then settings\<lparr>Timeout := DefautTimeout\<rparr> else settings);
            settings2 = (if RetryTimePeriod settings1 = 0
                         then settings1\<lparr>RetryTimePeriod := DefaultRetryTimePeriod\<rparr>
                         else settings1);
            settings3 = (if FailureThreshold settings2 = 0
                         then settings2\<lparr>FailureThreshold := DefautlFailureThreshold\<rparr>
                         else settings2)
        in Inr \<lparr>Settings = settings3, LastFailureTime = zeroTime,
                 FailureCount = 0, FailureRecord = []\<rparr>)"

text \<open>
  \<^verbatim>\<open>State\<close> and \<^verbatim>\<open>recordFailure\<close> read the clock
  (\<^verbatim>\<open>time.Now()\<close>); the instant read is their argument \<open>now\<close>.
\<close>

definition State :: "('f, 'h) CircuitBreaker \<Rightarrow> Time \<Rightarrow> CircuitState" where
  "State cb now =
     (if FailureCount cb \<ge> FailureThreshold (Settings cb)
      then
        let gracePeriod = wrap64 (Sub now (LastFailureTime cb) * Millisecond)
        in if gracePeriod > RetryTimePeriod (Settings cb) then IsHalfOpen else IsOpen
      else IsClosed)"

definition callService ::
  "('f, 'h) CircuitBreaker \<Rightarrow> 'a world \<Rightarrow>
     panic + (('a option \<times> error option) \<times> event list)" where
  "callService cb w =
     (case Service (Settings cb) of
        None \<Rightarrow> Inl NilFuncCall
      | Some f \<Rightarrow>
          Inr ((case selected w of
                  FromResponseChannel res \<Rightarrow>
                    (case Error res of
                       Some e \<Rightarrow> (None, Some (CallingError e))
                     | None \<Rightarrow>
                         (case Content res of
                            None \<Rightarrow>
                              (None, Some (CallingError (Errorf ''Service respond is nil'')))
                          | Some c \<Rightarrow> (Some c, None)))
                | FromTimeAfter \<Rightarrow>
                    (None, Some (CallingError (Errorf
                       (''Service timed out after '' @ fmt_d (Timeout (Settings cb))
                          @ '' milliseconds''))))),
               [ServiceStarted]))"

definition mayCallFallback ::
  "('f, 'h) CircuitBreaker \<Rightarrow> 'a world \<Rightarrow>
     ('a option \<times> bool \<times> error option) \<times> event list" where
  "mayCallFallback cb w =
     (if Fallback (Settings cb) = None then ((None, False, None), [])
      else ((Content (fallback_returns w), True, Error (fallback_returns w)),
            [FallbackCalled]))"

text \<open>
  In the \<^verbatim>\<open>switch\<close> of \<^verbatim>\<open>selectiveCall\<close> the case
  \<^verbatim>\<open>IsHalfOpen\<close> falls through to the case \<^verbatim>\<open>IsClosed\<close>: one branch for both.
\<close>

definition selectiveCall ::
  "('f, 'h) CircuitBreaker \<Rightarrow> CircuitState \<Rightarrow> 'a world \<Rightarrow>
     panic + (('a option \<times> bool \<times> error option) \<times> event list)" where
  "selectiveCall cb state w =
     (if state = IsOpen then
        (case mayCallFallback cb w of
           ((res, fallbacked, err), evs) \<Rightarrow>
             (case err of
                Some e \<Rightarrow>
                  Inr ((res, fallbacked, Some (Errorf
                         (''Service was fallbacked due to open state but failed too: ''
                            @ Error_of e))), evs)
              | None \<Rightarrow>
                  Inr ((res, fallbacked,
                        Some (Errorf ''Service was fallbacked due to open state'')), evs)))
      else if state = IsHalfOpen \<or> state = IsClosed then
        (case callService cb w of
           Inl p \<Rightarrow> Inl p
         | Inr ((res, err), evs) \<Rightarrow>
             (case err of
                Some e \<Rightarrow>
                  (case mayCallFallback cb w of
                     ((res', fallbacked, fberr), evs') \<Rightarrow>
                       if fallbacked then
                         (case fberr of
                            Some fe \<Rightarrow>
                              Inr ((res', fallbacked, Some (Errorf
                                     (''Service was fallbacked due to error but failed too: ''
                                        @ Error_of fe @ '': '' @ Error_of e))), evs @ evs')
                          | None \<Rightarrow>
                              Inr ((res', fallbacked, Some (Errorf
                                     (''Service was fallbacked due to error: ''
                                        @ Error_of e))), evs @ evs'))
                       else Inr ((res', False, Some e), evs @ evs'))
              | None \<Rightarrow> Inr ((res, False, err), evs)))
      else Inr ((None, False, Some (Errorf ''Unknown state'')), []))"

definition resetState :: "('f, 'h) CircuitBreaker \<Rightarrow> ('f, 'h) CircuitBreaker" where
  "resetState cb =
     cb\<lparr>FailureCount := 0, FailureRecord := [], LastFailureTime := zeroTime\<rparr>"

definition recordFailure ::
  "('f, 'h) CircuitBreaker \<Rightarrow> error option \<Rightarrow> Time \<Rightarrow> ('f, 'h) CircuitBreaker" where
  "recordFailure cb err now =
     (let err' = (case err of
                    None \<Rightarrow> Errorf ''Service is relying on fallback''
                  | Some e \<Rightarrow> e)
      in cb\<lparr>FailureCount := wrap64 (FailureCount cb + 1),
             LastFailureTime := now,
             FailureRecord := FailureRecord cb @ [Error_of err']\<rparr>)"

definition notifyState ::
  "('f, 'h) CircuitBreaker \<Rightarrow> CircuitState \<Rightarrow> CircuitState \<Rightarrow> event list" where
  "notifyState cb preState newState =
     (if newState \<noteq> preState then
        (if OnStateChange (Settings cb) \<noteq> None then [OnStateChangeCalled] else [])
        @ (case newState of
             IsOpen \<Rightarrow> (if OnTrip (Settings cb) \<noteq> None then [OnTripCalled] else [])
           | IsClosed \<Rightarrow> (if OnReset (Settings cb) \<noteq> None then [OnResetCalled] else [])
           | _ \<Rightarrow> [])
      else [])"

definition Call ::
  "('f, 'h) CircuitBreaker \<Rightarrow> 'a world \<Rightarrow>
     panic + (('a option \<times> bool \<times> error option) \<times> ('f, 'h) CircuitBreaker \<times> event list)"
  where
  "Call cb w =
     (let preState = State cb (now_State_pre w) in
      case selectiveCall cb preState w of
        Inl p \<Rightarrow> Inl p
      | Inr ((res, fallbacked, err), evs) \<Rightarrow>
          let cb' = (if fallbacked then recordFailure cb err (now_recordFailure w)
                     else resetState cb);
              newState = State cb' (now_State_post w)
          in Inr ((res, fallbacked, err), cb', evs @ notifyState cb' preState newState))"

text \<open>A sequence of calls, one after the other; a panic ends it.\<close>

fun Calls ::
  "('f, 'h) CircuitBreaker \<Rightarrow> 'a world list \<Rightarrow> panic + ('f, 'h) CircuitBreaker" where
  "Calls cb [] = Inr cb"
| "Calls cb (w # ws) =
     (case Call cb w of
        Inl p \<Rightarrow> Inl p
      | Inr (r, cb', evs) \<Rightarrow> Calls cb' ws)"

subsection \<open>The rule of the specification, for comparison\<close>

text \<open>
  The state derivation as the specification words it (section 4.1): elapsed time and
  grace period are compared as they are, in one unit. It is not used by the model above.
\<close>

definition spec_deriveState ::
  "int \<Rightarrow> Time \<Rightarrow> int \<Rightarrow> Duration \<Rightarrow> Time \<Rightarrow> CircuitState" where
  "spec_deriveState failureCount lastFailureTime threshold gracePeriod now =
     (if failureCount < threshold then IsClosed
      else if now - lastFailureTime > gracePeriod then IsHalfOpen
      else IsOpen)"

subsection \<open>Concrete breakers and worlds\<close>

text \<open>
  The settings of \<^verbatim>\<open>createCircuitBreaker\<close> in \<^verbatim>\<open>fixtures.go\<close> (the defaults,
  a service and a fallback) with the three hooks set; function values are named by
  strings. \<open>t0\<close> is an instant of the year 2025.
\<close>

definition t0 :: Time where
  "t0 = 63900000000000000000"

definition demo_settings :: "(string, string) CircuitSettings" where
  "demo_settings =
     \<lparr>Service = Some ''slowService'', Fallback = Some ''fallback'',
      Timeout = 2000, RetryTimePeriod = 3000, FailureThreshold = 2,
      OnTrip = Some ''onTrip'', OnReset = Some ''onReset'',
      OnStateChange = Some ''onStateChange''\<rparr>"

definition no_fallback_settings :: "(string, string) CircuitSettings" where
  "no_fallback_settings = demo_settings\<lparr>Fallback := None\<rparr>"

definition cached :: "string callableResponse" where
  "cached = \<lparr>Content = Some ''Relying on a fallback cached content'', Error = None\<rparr>"

definition healthy :: "string callableResponse" where
  "healthy = \<lparr>Content = Some ''A health service gives a fast response'', Error = None\<rparr>"

definition failing :: "string callableResponse" where
  "failing = \<lparr>Content = None, Error = Some (Errorf ''connection refused'')\<rparr>"

definition empty_response :: "string callableResponse" where
  "empty_response = \<lparr>Content = None, Error = None\<rparr>"

text \<open>A breaker that has failed twice, the second time at \<open>t0\<close>.\<close>

definition tripped :: "(string, string) CircuitBreaker" where
  "tripped =
     \<lparr>Settings = demo_settings, LastFailureTime = t0, FailureCount = 2,
      FailureRecord = [''first failure'', ''second failure'']\<rparr>"

definition tripped_no_fallback :: "(string, string) CircuitBreaker" where
  "tripped_no_fallback = tripped\<lparr>Settings := no_fallback_settings\<rparr>"

text \<open>A breaker without fallback that has failed once.\<close>

definition failed_once_no_fallback :: "(string, string) CircuitBreaker" where
  "failed_once_no_fallback =
     \<lparr>Settings = no_fallback_settings, LastFailureTime = t0, FailureCount = 1,
      FailureRecord = [''first failure'']\<rparr>"

text \<open>The breaker that the constructor returns for \<open>no_fallback_settings\<close>.\<close>

definition fresh_no_fallback :: "(string, string) CircuitBreaker" where
  "fresh_no_fallback =
     \<lparr>Settings = no_fallback_settings, LastFailureTime = zeroTime, FailureCount = 0,
      FailureRecord = []\<rparr>"

text \<open>
  Worlds: the first clock reading is \<open>now\<close>, the later ones 1000 ns after it (both the
  same: no clock tick between recording a failure and deriving the state again).
\<close>

definition world_at :: "Time \<Rightarrow> string selected \<Rightarrow> string world" where
  "world_at now sel =
     \<lparr>now_State_pre = now, selected = sel, fallback_returns = cached,
      now_recordFailure = now + 1000, now_State_post = now + 1000\<rparr>"

text \<open>
  A probe that times out: the state is derived 4 s after the last failure of
  \<open>tripped\<close>; the timer of 2000 ms fires first; the failure is recorded 50 microseconds
  after that, and the state is derived again 200 ns later.
\<close>

definition probe_times_out :: "string world" where
  "probe_times_out =
     \<lparr>now_State_pre = t0 + 4000000000, selected = FromTimeAfter,
      fallback_returns = cached, now_recordFailure = t0 + 6000050000,
      now_State_post = t0 + 6000050200\<rparr>"

section \<open>Properties\<close>

subsection \<open>Arithmetic of durations\<close>

lemma wrap64_id: "- (2 ^ 63) \<le> x \<Longrightarrow> x < 2 ^ 63 \<Longrightarrow> wrap64 x = x"
  by (simp add: wrap64_def)

subsection \<open>State derivation\<close>

text \<open>
  Claim C1. The claim: the state is Normal below the threshold, and from the threshold on
  it is Blocked while the time elapsed since the last failure is at most the grace period
  and Probing once it exceeds it, both taken in one unit without scaling.

  \<^verbatim>\<open>State\<close> multiplies the elapsed nanoseconds by \<^verbatim>\<open>time.Millisecond\<close>
  (1000000) before it compares them with \<^verbatim>\<open>RetryTimePeriod\<close>. For the breaker
  \<open>tripped\<close> (threshold 2, two failures, the last at \<open>t0\<close>, grace period 3000), one
  nanosecond after the failure the elapsed time 1 is below 3000 in any unit, so the rule of
  the claim gives Blocked (\<open>IsOpen\<close>); the code gives Probing (\<open>IsHalfOpen\<close>).
  In the other direction, 9223372036855 ns (some 2 h 34 min) after the failure the
  product no longer fits 64 bits and wraps to a negative Duration: the code gives Blocked
  where the rule of the claim gives Probing.
\<close>

theorem State_scales_elapsed_time:
  "State tripped (t0 + 1) = IsHalfOpen \<and>
   spec_deriveState (FailureCount tripped) (LastFailureTime tripped)
     (FailureThreshold (Settings tripped)) (RetryTimePeriod (Settings tripped)) (t0 + 1)
     = IsOpen \<and>
   State tripped (t0 + 9223372036855) = IsOpen \<and>
   spec_deriveState (FailureCount tripped) (LastFailureTime tripped)
     (FailureThreshold (Settings tripped)) (RetryTimePeriod (Settings tripped))
     (t0 + 9223372036855)
     = IsHalfOpen"
  by (simp add: State_def tripped_def demo_settings_def t0_def Sub_def maxDuration_def
      minDuration_def Millisecond_def wrap64_def spec_deriveState_def)

subsection \<open>The constructor\<close>

text \<open>
  Claim C9. \<^verbatim>\<open>NewCircuitBreaker\<close> returns an error exactly when the service is
  nil. Otherwise it returns a breaker whose settings are the given ones, except that a zero
  timeout is replaced by 2000, a zero retry period by 3000 and a zero failure threshold
  by 2; the breaker starts with no failure recorded.
\<close>

theorem NewCircuitBreaker_error_iff_no_service_else_defaults:
  "((\<exists>e. NewCircuitBreaker s = Inl e) \<longleftrightarrow> Service s = None) \<and>
   (Service s \<noteq> None \<longrightarrow>
      (\<exists>cb. NewCircuitBreaker s = Inr cb \<and>
         Settings cb =
           s\<lparr>Timeout := (if Timeout s = 0 then 2000 else Timeout s),
             RetryTimePeriod := (if RetryTimePeriod s = 0 then 3000 else RetryTimePeriod s),
             FailureThreshold :=
               (if FailureThreshold s = 0 then 2 else FailureThreshold s)\<rparr> \<and>
         LastFailureTime cb = zeroTime \<and> FailureCount cb = 0 \<and> FailureRecord cb = []))"
  by (simp add: NewCircuitBreaker_def DefautTimeout_def DefaultRetryTimePeriod_def
      DefautlFailureThreshold_def Let_def)

theorem NewCircuitBreaker_error_iff_no_service_else_defaults_witness:
  "(\<exists>e. NewCircuitBreaker (demo_settings\<lparr>Service := None\<rparr>) = Inl e) \<and>
   Service (demo_settings\<lparr>Timeout := 0, FailureThreshold := 7\<rparr>) \<noteq> None \<and>
   (\<exists>cb. NewCircuitBreaker (demo_settings\<lparr>Timeout := 0, FailureThreshold := 7\<rparr>) = Inr cb \<and>
      Timeout (Settings cb) = 2000 \<and> RetryTimePeriod (Settings cb) = 3000 \<and>
      FailureThreshold (Settings cb) = 7 \<and> FailureCount cb = 0)"
  using NewCircuitBreaker_error_iff_no_service_else_defaults
          [of "demo_settings\<lparr>Service := None\<rparr>"]
        NewCircuitBreaker_error_iff_no_service_else_defaults
          [of "demo_settings\<lparr>Timeout := 0, FailureThreshold := 7\<rparr>"]
  by (auto simp add: demo_settings_def)

subsection \<open>Bounded invocation\<close>

lemma callService_returns:
  "Service (Settings cb) \<noteq> None \<Longrightarrow>
   \<exists>res err. callService cb w = Inr ((res, err), [ServiceStarted])"
  by (auto simp add: callService_def split: selected.splits option.splits)

text \<open>
  Claim C8. \<^verbatim>\<open>callService\<close> classifies the outcome of the \<^verbatim>\<open>select\<close>: a
  response that carries an error gives a \<^verbatim>\<open>CallingError\<close> around that error; a
  response without error and without content gives the error "Service respond is nil";
  a response with content and no error gives the content and no error; when the timer
  fires first the error says "Service timed out after" the configured timeout.
  Which of the two cases of the \<^verbatim>\<open>select\<close> fires is given by the world.
\<close>

theorem callService_classifies_outcome:
  assumes "Service (Settings cb) \<noteq> None"
  shows
  "(\<forall>res e. selected w = FromResponseChannel res \<and> Error res = Some e \<longrightarrow>
      callService cb w = Inr ((None, Some (CallingError e)), [ServiceStarted])) \<and>
   (\<forall>res. selected w = FromResponseChannel res \<and> Error res = None \<and> Content res = None \<longrightarrow>
      callService cb w =
        Inr ((None, Some (CallingError (Errorf ''Service respond is nil''))),
             [ServiceStarted])) \<and>
   (\<forall>res c. selected w = FromResponseChannel res \<and> Error res = None \<and>
        Content res = Some c \<longrightarrow>
      callService cb w = Inr ((Some c, None), [ServiceStarted])) \<and>
   (selected w = FromTimeAfter \<longrightarrow>
      (\<exists>err. callService cb w = Inr ((None, Some err), [ServiceStarted]) \<and>
         Error_of err = ''Error when calling service: Service timed out after ''
            @ fmt_d (Timeout (Settings cb)) @ '' milliseconds''))"
  using assms by (auto simp add: callService_def)

theorem callService_classifies_outcome_witness:
  "Service (Settings tripped) \<noteq> None \<and>
   callService tripped (world_at t0 (FromResponseChannel failing))
     = Inr ((None, Some (CallingError (Errorf ''connection refused''))), [ServiceStarted]) \<and>
   callService tripped (world_at t0 (FromResponseChannel empty_response))
     = Inr ((None, Some (CallingError (Errorf ''Service respond is nil''))),
            [ServiceStarted]) \<and>
   callService tripped (world_at t0 (FromResponseChannel healthy))
     = Inr ((Some ''A health service gives a fast response'', None), [ServiceStarted]) \<and>
   (\<exists>err. callService tripped (world_at t0 FromTimeAfter)
             = Inr ((None, Some err), [ServiceStarted]) \<and>
      Error_of err
        = ''Error when calling service: Service timed out after 2000 milliseconds'')"
proof -
  have svc: "Service (Settings tripped) \<noteq> None"
    by (simp add: tripped_def demo_settings_def)
  have d: "fmt_d 2000 = ''2000''"
    by (simp add: fmt_d_def digits.simps digit_def)
  have t: "Timeout (Settings tripped) = 2000"
    by (simp add: tripped_def demo_settings_def)
  note c = callService_classifies_outcome [OF svc]
  have 1: "callService tripped (world_at t0 (FromResponseChannel failing))
     = Inr ((None, Some (CallingError (Errorf ''connection refused''))), [ServiceStarted])"
    using c [of "world_at t0 (FromResponseChannel failing)"]
    by (simp add: world_at_def failing_def)
  have 2: "callService tripped (world_at t0 (FromResponseChannel empty_response))
     = Inr ((None, Some (CallingError (Errorf ''Service respond is nil''))),
            [ServiceStarted])"
    using c [of "world_at t0 (FromResponseChannel empty_response)"]
    by (simp add: world_at_def empty_response_def)
  have 3: "callService tripped (world_at t0 (FromResponseChannel healthy))
     = Inr ((Some ''A health service gives a fast response'', None), [ServiceStarted])"
    using c [of "world_at t0 (FromResponseChannel healthy)"]
    by (simp add: world_at_def healthy_def)
  have 4: "\<exists>err. callService tripped (world_at t0 FromTimeAfter)
                  = Inr ((None, Some err), [ServiceStarted]) \<and>
      Error_of err
        = ''Error when calling service: Service timed out after 2000 milliseconds''"
    using c [of "world_at t0 FromTimeAfter"] d t
    by (simp add: world_at_def)
  from svc 1 2 3 4 show ?thesis by blast
qed

subsection \<open>Dispatch\<close>

lemma State_not_invalid: "State cb now \<noteq> InvalidState"
  by (simp add: State_def Let_def)

lemma State_not_open_iff:
  "State cb now \<noteq> IsOpen \<longleftrightarrow> State cb now = IsClosed \<or> State cb now = IsHalfOpen"
  using State_not_invalid [of cb now] by (cases "State cb now") auto

lemma State_tripped_probing: "State tripped (t0 + 1) = IsHalfOpen"
  by (simp add: State_def tripped_def demo_settings_def t0_def Sub_def maxDuration_def
      minDuration_def Millisecond_def wrap64_def)

lemma State_tripped_blocked: "State tripped t0 = IsOpen"
  by (simp add: State_def tripped_def demo_settings_def t0_def Sub_def maxDuration_def
      minDuration_def Millisecond_def wrap64_def)

lemma State_tripped_no_fallback_blocked: "State tripped_no_fallback t0 = IsOpen"
  by (simp add: State_def tripped_no_fallback_def no_fallback_settings_def
      tripped_def demo_settings_def t0_def Sub_def maxDuration_def
      minDuration_def Millisecond_def wrap64_def)

lemma Call_unfold:
  "Call cb w =
     (case selectiveCall cb (State cb (now_State_pre w)) w of
        Inl p \<Rightarrow> Inl p
      | Inr ((res, fallbacked, err), evs) \<Rightarrow>
          Inr ((res, fallbacked, err),
               (if fallbacked then recordFailure cb err (now_recordFailure w)
                else resetState cb),
               evs @ notifyState
                       (if fallbacked then recordFailure cb err (now_recordFailure w)
                        else resetState cb)
                       (State cb (now_State_pre w))
                       (State (if fallbacked then recordFailure cb err (now_recordFailure w)
                               else resetState cb) (now_State_post w))))"
  by (simp add: Call_def Let_def split: sum.splits prod.splits)

lemma selectiveCall_open:
  "selectiveCall cb IsOpen w =
     (if Fallback (Settings cb) = None
      then Inr ((None, False, Some (Errorf ''Service was fallbacked due to open state'')), [])
      else Inr ((Content (fallback_returns w), True,
                 Some (Errorf (case Error (fallback_returns w) of
                    None \<Rightarrow> ''Service was fallbacked due to open state''
                  | Some fe \<Rightarrow>
                      ''Service was fallbacked due to open state but failed too: ''
                        @ Error_of fe))),
                [FallbackCalled]))"
  by (simp add: selectiveCall_def mayCallFallback_def split: option.splits)

lemma selectiveCall_success:
  "state = IsClosed \<or> state = IsHalfOpen \<Longrightarrow>
   callService cb w = Inr ((res, None), evs) \<Longrightarrow>
   selectiveCall cb state w = Inr ((res, False, None), evs)"
  by (auto simp add: selectiveCall_def)

lemma selectiveCall_failure:
  "state = IsClosed \<or> state = IsHalfOpen \<Longrightarrow>
   callService cb w = Inr ((res, Some e), evs) \<Longrightarrow>
   selectiveCall cb state w =
     (if Fallback (Settings cb) = None then Inr ((None, False, Some e), evs)
      else Inr ((Content (fallback_returns w), True,
                 Some (Errorf (case Error (fallback_returns w) of
                    None \<Rightarrow> ''Service was fallbacked due to error: '' @ Error_of e
                  | Some fe \<Rightarrow>
                      ''Service was fallbacked due to error but failed too: ''
                        @ Error_of fe @ '': '' @ Error_of e))),
                evs @ [FallbackCalled]))"
  by (auto simp add: selectiveCall_def mayCallFallback_def split: option.splits)

lemma selectiveCall_returns:
  assumes "Service (Settings cb) \<noteq> None"
  shows "\<exists>res fallbacked err evs0.
     selectiveCall cb (State cb (now_State_pre w)) w = Inr ((res, fallbacked, err), evs0)"
proof -
  obtain r e where cs: "callService cb w = Inr ((r, e), [ServiceStarted])"
    using callService_returns [OF assms] by blast
  consider "State cb (now_State_pre w) = IsOpen"
    | "State cb (now_State_pre w) = IsClosed \<or> State cb (now_State_pre w) = IsHalfOpen"
    using State_not_open_iff [of cb "now_State_pre w"] by blast
  then show ?thesis
  proof cases
    case 1
    then show ?thesis by (auto simp add: selectiveCall_open)
  next
    case 2
    show ?thesis
    proof (cases e)
      case None
      with cs 2 show ?thesis by (auto simp add: selectiveCall_success)
    next
      case (Some a)
      with cs 2 show ?thesis by (auto simp add: selectiveCall_failure)
    qed
  qed
qed

lemma selectiveCall_events:
  "selectiveCall cb state w = Inr (r, evs) \<Longrightarrow>
   set evs \<subseteq> {ServiceStarted, FallbackCalled}"
  by (auto simp add: selectiveCall_def mayCallFallback_def callService_def
      split: if_splits option.splits selected.splits)

lemma selectiveCall_error_nil_iff:
  assumes "selectiveCall cb state w = Inr ((res, fallbacked, err), evs)"
  shows "err = None \<longleftrightarrow>
           (state = IsClosed \<or> state = IsHalfOpen) \<and>
           (\<exists>r c. selected w = FromResponseChannel r \<and> Error r = None \<and>
                  Content r = Some c)"
  using assms
  by (auto simp add: selectiveCall_def mayCallFallback_def callService_def
      split: if_splits option.splits selected.splits) metis+

lemma selectiveCall_error_nil_result:
  assumes "selectiveCall cb state w = Inr ((res, fallbacked, None), evs)"
  shows "\<not> fallbacked \<and> evs = [ServiceStarted] \<and>
         (\<exists>r. selected w = FromResponseChannel r \<and> res = Content r)"
  using assms
  by (auto simp add: selectiveCall_def mayCallFallback_def callService_def
      split: if_splits option.splits selected.splits)

text \<open>
  Claim C4. For a breaker with a service, \<^verbatim>\<open>Call\<close> returns, and the error it
  returns is nil exactly when the breaker was not blocked before the call and the service
  delivered, before the timer, a response with content and without error; then the
  service was started, no fallback was used and the content is the service's. Whenever
  a fallback was used, and whenever the breaker was blocked before the call, the error is
  not nil.
\<close>

theorem Call_error_nil_iff_genuine_success:
  assumes "Service (Settings cb) \<noteq> None"
  shows "\<exists>res fallbacked err cb' evs.
     Call cb w = Inr ((res, fallbacked, err), cb', evs) \<and>
     (err = None \<longleftrightarrow>
        State cb (now_State_pre w) \<noteq> IsOpen \<and>
        (\<exists>r c. selected w = FromResponseChannel r \<and> Error r = None \<and>
               Content r = Some c)) \<and>
     (err = None \<longrightarrow>
        \<not> fallbacked \<and> ServiceStarted \<in> set evs \<and>
        (\<exists>r. selected w = FromResponseChannel r \<and> res = Content r)) \<and>
     (fallbacked \<longrightarrow> err \<noteq> None) \<and>
     (State cb (now_State_pre w) = IsOpen \<longrightarrow> err \<noteq> None)"
proof -
  obtain res fallbacked err evs0 where
    sc: "selectiveCall cb (State cb (now_State_pre w)) w = Inr ((res, fallbacked, err), evs0)"
    using selectiveCall_returns [OF assms] by blast
  have iff: "err = None \<longleftrightarrow>
        State cb (now_State_pre w) \<noteq> IsOpen \<and>
        (\<exists>r c. selected w = FromResponseChannel r \<and> Error r = None \<and> Content r = Some c)"
    using selectiveCall_error_nil_iff [OF sc] State_not_open_iff [of cb "now_State_pre w"]
    by simp
  have nil: "err = None \<longrightarrow>
        \<not> fallbacked \<and> evs0 = [ServiceStarted] \<and>
        (\<exists>r. selected w = FromResponseChannel r \<and> res = Content r)"
    using selectiveCall_error_nil_result [of cb _ w res fallbacked evs0] sc by auto
  have call: "\<exists>cb' evs1. Call cb w = Inr ((res, fallbacked, err), cb', evs0 @ evs1)"
    using sc by (simp add: Call_unfold)
  from call iff nil show ?thesis by fastforce
qed

theorem Call_error_nil_iff_genuine_success_witness:
  "Service (Settings tripped) \<noteq> None \<and>
   (\<exists>res fallbacked cb' evs.
      Call tripped (world_at (t0 + 1) (FromResponseChannel healthy))
        = Inr ((res, fallbacked, None), cb', evs)) \<and>
   (\<exists>res fallbacked e cb' evs.
      Call tripped (world_at (t0 + 1) (FromResponseChannel failing))
        = Inr ((res, fallbacked, Some e), cb', evs))"
proof -
  have svc: "Service (Settings tripped) \<noteq> None"
    by (simp add: tripped_def demo_settings_def)
  have 1: "\<exists>res fallbacked cb' evs.
      Call tripped (world_at (t0 + 1) (FromResponseChannel healthy))
        = Inr ((res, fallbacked, None), cb', evs)"
    using Call_error_nil_iff_genuine_success
            [OF svc, of "world_at (t0 + 1) (FromResponseChannel healthy)"]
      State_tripped_probing
    by (auto simp add: world_at_def healthy_def)
  have 2: "\<exists>res fallbacked e cb' evs.
      Call tripped (world_at (t0 + 1) (FromResponseChannel failing))
        = Inr ((res, fallbacked, Some e), cb', evs)"
    using Call_error_nil_iff_genuine_success
            [OF svc, of "world_at (t0 + 1) (FromResponseChannel failing)"]
    by (auto simp add: world_at_def failing_def)
  from svc 1 2 show ?thesis by blast
qed

text \<open>
  Claim C5. When the state before the call is \<open>IsOpen\<close> (Blocked), \<^verbatim>\<open>Call\<close>
  returns without starting the service. Without a fallback it returns no content, not
  via fallback, and the error "Service was fallbacked due to open state". With a fallback
  it calls it and returns the fallback's content, via fallback, and an error with that
  message, extended by the fallback's own error message when the fallback failed.
\<close>

theorem Call_when_blocked:
  assumes "State cb (now_State_pre w) = IsOpen"
  shows
   "(Fallback (Settings cb) = None \<longrightarrow>
       (\<exists>cb' evs.
          Call cb w = Inr ((None, False,
                            Some (Errorf ''Service was fallbacked due to open state'')),
                           cb', evs) \<and>
          ServiceStarted \<notin> set evs \<and> FallbackCalled \<notin> set evs)) \<and>
    (Fallback (Settings cb) \<noteq> None \<longrightarrow>
       (\<exists>err cb' evs.
          Call cb w = Inr ((Content (fallback_returns w), True, Some err), cb', evs) \<and>
          Error_of err =
            (case Error (fallback_returns w) of
               None \<Rightarrow> ''Service was fallbacked due to open state''
             | Some fe \<Rightarrow>
                 ''Service was fallbacked due to open state but failed too: ''
                   @ Error_of fe) \<and>
          ServiceStarted \<notin> set evs \<and> FallbackCalled \<in> set evs))"
  using assms
  by (auto simp add: Call_unfold selectiveCall_open notifyState_def
      split: CircuitState.splits)

theorem Call_when_blocked_witness:
  "State tripped (now_State_pre (world_at t0 FromTimeAfter)) = IsOpen \<and>
   Fallback (Settings tripped) \<noteq> None \<and>
   (\<exists>err cb' evs.
      Call tripped (world_at t0 FromTimeAfter)
        = Inr ((Some ''Relying on a fallback cached content'', True, Some err), cb', evs) \<and>
      Error_of err = ''Service was fallbacked due to open state'' \<and>
      ServiceStarted \<notin> set evs) \<and>
   State tripped_no_fallback (now_State_pre (world_at t0 FromTimeAfter)) = IsOpen \<and>
   Fallback (Settings tripped_no_fallback) = None \<and>
   (\<exists>cb' evs.
      Call tripped_no_fallback (world_at t0 FromTimeAfter)
        = Inr ((None, False, Some (Errorf ''Service was fallbacked due to open state'')),
               cb', evs) \<and>
      ServiceStarted \<notin> set evs)"
proof -
  have pre1: "State tripped (now_State_pre (world_at t0 FromTimeAfter)) = IsOpen"
    using State_tripped_blocked by (simp add: world_at_def)
  have pre2: "State tripped_no_fallback (now_State_pre (world_at t0 FromTimeAfter)) = IsOpen"
    using State_tripped_no_fallback_blocked by (simp add: world_at_def)
  have fb1: "Fallback (Settings tripped) \<noteq> None"
    by (simp add: tripped_def demo_settings_def)
  have fb2: "Fallback (Settings tripped_no_fallback) = None"
    by (simp add: tripped_no_fallback_def no_fallback_settings_def)
  have 1: "\<exists>err cb' evs.
      Call tripped (world_at t0 FromTimeAfter)
        = Inr ((Some ''Relying on a fallback cached content'', True, Some err), cb', evs) \<and>
      Error_of err = ''Service was fallbacked due to open state'' \<and>
      ServiceStarted \<notin> set evs"
    using Call_when_blocked [OF pre1] fb1 by (auto simp add: world_at_def cached_def)
  have 2: "\<exists>cb' evs.
      Call tripped_no_fallback (world_at t0 FromTimeAfter)
        = Inr ((None, False, Some (Errorf ''Service was fallbacked due to open state'')),
               cb', evs) \<and>
      ServiceStarted \<notin> set evs"
    using Call_when_blocked [OF pre2] fb2 by auto
  from pre1 pre2 fb1 fb2 1 2 show ?thesis by blast
qed

subsection \<open>Notification\<close>

lemma Call_settings: "Call cb w = Inr (r, cb', evs) \<Longrightarrow> Settings cb' = Settings cb"
  by (auto simp add: Call_unfold recordFailure_def resetState_def Let_def
      split: sum.splits prod.splits if_splits)

lemma Call_events:
  assumes "Call cb w = Inr (r, cb', evs)"
  shows "\<exists>evs0. selectiveCall cb (State cb (now_State_pre w)) w = Inr (r, evs0) \<and>
           evs = evs0 @ notifyState cb' (State cb (now_State_pre w))
                          (State cb' (now_State_post w))"
  using assms
  by (auto simp add: Call_unfold split: sum.splits prod.splits)

lemma notifyState_hooks:
  "notifyState cb pre post =
     (if post \<noteq> pre \<and> OnStateChange (Settings cb) \<noteq> None
      then [OnStateChangeCalled] else [])
     @ (if post = IsOpen \<and> pre \<noteq> IsOpen \<and> OnTrip (Settings cb) \<noteq> None
        then [OnTripCalled] else [])
     @ (if post = IsClosed \<and> pre \<noteq> IsClosed \<and> OnReset (Settings cb) \<noteq> None
        then [OnResetCalled] else [])"
  by (cases post) (auto simp add: notifyState_def)

lemmas eval_defs = Call_def selectiveCall_def callService_def mayCallFallback_def
  recordFailure_def resetState_def notifyState_def State_def Sub_def wrap64_def
  maxDuration_def minDuration_def Millisecond_def zeroTime_def
  tripped_def tripped_no_fallback_def failed_once_no_fallback_def fresh_no_fallback_def
  demo_settings_def no_fallback_settings_def world_at_def cached_def healthy_def
  failing_def empty_response_def probe_times_out_def t0_def fmt_d_def digits.simps
  digit_def Let_def

lemma Call_tripped_probe_succeeds:
  "Call tripped (world_at (t0 + 1) (FromResponseChannel healthy)) =
     Inr ((Some ''A health service gives a fast response'', False, None),
          \<lparr>Settings = demo_settings, LastFailureTime = zeroTime, FailureCount = 0,
           FailureRecord = []\<rparr>,
          [ServiceStarted, OnStateChangeCalled, OnResetCalled])"
  by (simp add: eval_defs)

text \<open>
  Claim C6. For a breaker with a service, the events of a \<^verbatim>\<open>Call\<close> are those of the
  dispatch (service started, fallback called) followed by the hooks. With \<open>pre\<close> the
  state derived before the call and \<open>post\<close> the state derived after it, the hooks
  fired are, in this order: the state-change hook if it is set and \<open>post\<close> differs from
  \<open>pre\<close>; then the trip hook if it is set, \<open>post\<close> is \<open>IsOpen\<close> and \<open>pre\<close> was not;
  or the reset hook if it is set, \<open>post\<close> is \<open>IsClosed\<close> and \<open>pre\<close> was not. So
  each hook fires exactly under its condition, the generic one first, and none fires when
  \<open>post = pre\<close>.
\<close>

theorem Call_fires_hooks_on_state_change:
  assumes "Service (Settings cb) \<noteq> None"
  shows "\<exists>r cb' evs0 hooks.
     Call cb w = Inr (r, cb', evs0 @ hooks) \<and>
     set evs0 \<subseteq> {ServiceStarted, FallbackCalled} \<and>
     (let pre = State cb (now_State_pre w); post = State cb' (now_State_post w) in
      hooks =
        (if post \<noteq> pre \<and> OnStateChange (Settings cb) \<noteq> None
         then [OnStateChangeCalled] else [])
        @ (if post = IsOpen \<and> pre \<noteq> IsOpen \<and> OnTrip (Settings cb) \<noteq> None
           then [OnTripCalled] else [])
        @ (if post = IsClosed \<and> pre \<noteq> IsClosed \<and> OnReset (Settings cb) \<noteq> None
           then [OnResetCalled] else []) \<and>
      (post = pre \<longrightarrow> hooks = []) \<and>
      (OnStateChangeCalled \<in> set hooks \<longleftrightarrow>
         post \<noteq> pre \<and> OnStateChange (Settings cb) \<noteq> None) \<and>
      (OnTripCalled \<in> set hooks \<longleftrightarrow>
         post = IsOpen \<and> pre \<noteq> IsOpen \<and> OnTrip (Settings cb) \<noteq> None) \<and>
      (OnResetCalled \<in> set hooks \<longleftrightarrow>
         post = IsClosed \<and> pre \<noteq> IsClosed \<and> OnReset (Settings cb) \<noteq> None))"
proof -
  obtain res fallbacked err evs0 where
    sc: "selectiveCall cb (State cb (now_State_pre w)) w = Inr ((res, fallbacked, err), evs0)"
    using selectiveCall_returns [OF assms] by blast
  then obtain cb' evs where call: "Call cb w = Inr ((res, fallbacked, err), cb', evs)"
    by (simp add: Call_unfold)
  define pre where "pre = State cb (now_State_pre w)"
  define post where "post = State cb' (now_State_post w)"
  define hooks where "hooks = notifyState cb' pre post"
  from Call_events [OF call] sc
  have evs: "evs = evs0 @ hooks"
    by (simp add: hooks_def pre_def post_def)
  have s: "Settings cb' = Settings cb"
    using Call_settings [OF call] .
  have e0: "set evs0 \<subseteq> {ServiceStarted, FallbackCalled}"
    using selectiveCall_events [OF sc] .
  have h: "hooks =
        (if post \<noteq> pre \<and> OnStateChange (Settings cb) \<noteq> None
         then [OnStateChangeCalled] else [])
        @ (if post = IsOpen \<and> pre \<noteq> IsOpen \<and> OnTrip (Settings cb) \<noteq> None
           then [OnTripCalled] else [])
        @ (if post = IsClosed \<and> pre \<noteq> IsClosed \<and> OnReset (Settings cb) \<noteq> None
           then [OnResetCalled] else [])"
    using notifyState_hooks [of cb' pre post] s by (simp add: hooks_def)
  have h0: "post = pre \<longrightarrow> hooks = []"
    and h1: "OnStateChangeCalled \<in> set hooks \<longleftrightarrow>
         post \<noteq> pre \<and> OnStateChange (Settings cb) \<noteq> None"
    and h2: "OnTripCalled \<in> set hooks \<longleftrightarrow>
         post = IsOpen \<and> pre \<noteq> IsOpen \<and> OnTrip (Settings cb) \<noteq> None"
    and h3: "OnResetCalled \<in> set hooks \<longleftrightarrow>
         post = IsClosed \<and> pre \<noteq> IsClosed \<and> OnReset (Settings cb) \<noteq> None"
    by (auto simp add: h)
  show ?thesis
    using call [unfolded evs] e0 h h0 h1 h2 h3
    unfolding Let_def pre_def post_def by blast
qed

theorem Call_fires_hooks_on_state_change_witness:
  "Service (Settings tripped) \<noteq> None \<and>
   (\<exists>r cb' evs0.
      Call tripped (world_at (t0 + 1) (FromResponseChannel healthy))
        = Inr (r, cb', evs0 @ [OnStateChangeCalled, OnResetCalled]) \<and>
      set evs0 \<subseteq> {ServiceStarted, FallbackCalled})"
proof -
  let ?w = "world_at (t0 + 1) (FromResponseChannel healthy)"
  have svc: "Service (Settings tripped) \<noteq> None"
    by (simp add: tripped_def demo_settings_def)
  from Call_fires_hooks_on_state_change [OF svc, of ?w]
  obtain r cb' evs0 hooks where call: "Call tripped ?w = Inr (r, cb', evs0 @ hooks)"
    and e0: "set evs0 \<subseteq> {ServiceStarted, FallbackCalled}"
    and h: "hooks =
        (if State cb' (now_State_post ?w) \<noteq> State tripped (now_State_pre ?w) \<and>
            OnStateChange (Settings tripped) \<noteq> None
         then [OnStateChangeCalled] else [])
        @ (if State cb' (now_State_post ?w) = IsOpen \<and>
              State tripped (now_State_pre ?w) \<noteq> IsOpen \<and>
              OnTrip (Settings tripped) \<noteq> None
           then [OnTripCalled] else [])
        @ (if State cb' (now_State_post ?w) = IsClosed \<and>
              State tripped (now_State_pre ?w) \<noteq> IsClosed \<and>
              OnReset (Settings tripped) \<noteq> None
           then [OnResetCalled] else [])"
    unfolding Let_def by blast
  have cb': "cb' = \<lparr>Settings = demo_settings, LastFailureTime = zeroTime,
                    FailureCount = 0, FailureRecord = []\<rparr>"
    using call Call_tripped_probe_succeeds by simp
  have post: "State cb' (now_State_post ?w) = IsClosed"
    by (simp add: cb' State_def demo_settings_def)
  have pre: "State tripped (now_State_pre ?w) = IsHalfOpen"
    using State_tripped_probing by (simp add: world_at_def)
  have hk: "OnStateChange (Settings tripped) \<noteq> None" "OnReset (Settings tripped) \<noteq> None"
    by (simp_all add: tripped_def demo_settings_def)
  have "hooks = [OnStateChangeCalled, OnResetCalled]"
    using h by (simp add: post pre hk)
  with call e0 svc show ?thesis by blast
qed

subsection \<open>The failure ledger\<close>

lemma Call_breaker_after:
  "Call cb w = Inr ((res, fallbacked, err), cb', evs) \<Longrightarrow>
   cb' = (if fallbacked then recordFailure cb err (now_recordFailure w) else resetState cb)"
  by (auto simp add: Call_unfold split: sum.splits prod.splits)

text \<open>
  Claim C2. The claim: every call whose target fails, also without a fallback, adds one
  to the failure count, sets the time of the last failure and appends one entry to the
  log.

  \<^verbatim>\<open>Call\<close> records a failure only when \<^verbatim>\<open>selectiveCall\<close> reports a fallback;
  without a fallback it takes the other branch and resets. The breaker that the
  constructor returns for settings without fallback, called once with a service that
  returns an error, returns that error and is left with no failure recorded; a breaker
  without fallback that holds one failure is left with none.
\<close>

theorem Call_without_fallback_does_not_record_failure:
  "NewCircuitBreaker no_fallback_settings = Inr fresh_no_fallback \<and>
   Call fresh_no_fallback (world_at t0 (FromResponseChannel failing)) =
     Inr ((None, False, Some (CallingError (Errorf ''connection refused''))),
          \<lparr>Settings = no_fallback_settings, LastFailureTime = zeroTime, FailureCount = 0,
           FailureRecord = []\<rparr>,
          [ServiceStarted]) \<and>
   FailureCount failed_once_no_fallback = 1 \<and>
   Call failed_once_no_fallback (world_at (t0 + 5) (FromResponseChannel failing)) =
     Inr ((None, False, Some (CallingError (Errorf ''connection refused''))),
          \<lparr>Settings = no_fallback_settings, LastFailureTime = zeroTime, FailureCount = 0,
           FailureRecord = []\<rparr>,
          [ServiceStarted])"
proof -
  have "NewCircuitBreaker no_fallback_settings = Inr fresh_no_fallback"
    by (simp add: NewCircuitBreaker_def no_fallback_settings_def demo_settings_def
        fresh_no_fallback_def Let_def)
  moreover have "Call fresh_no_fallback (world_at t0 (FromResponseChannel failing)) =
     Inr ((None, False, Some (CallingError (Errorf ''connection refused''))),
          \<lparr>Settings = no_fallback_settings, LastFailureTime = zeroTime, FailureCount = 0,
           FailureRecord = []\<rparr>,
          [ServiceStarted])"
    by (simp add: eval_defs)
  moreover have "FailureCount failed_once_no_fallback = 1"
    by (simp add: failed_once_no_fallback_def)
  moreover have
    "Call failed_once_no_fallback (world_at (t0 + 5) (FromResponseChannel failing)) =
     Inr ((None, False, Some (CallingError (Errorf ''connection refused''))),
          \<lparr>Settings = no_fallback_settings, LastFailureTime = zeroTime, FailureCount = 0,
           FailureRecord = []\<rparr>,
          [ServiceStarted])"
    by (simp add: eval_defs)
  ultimately show ?thesis by blast
qed

text \<open>
  With a fallback configured the reset happens exactly on a genuine success: every other
  call uses the fallback and records a failure.
\<close>

lemma Call_with_fallback_resets_iff_success:
  assumes "Service (Settings cb) \<noteq> None" and "Fallback (Settings cb) \<noteq> None"
  shows "\<exists>res fallbacked err cb' evs.
     Call cb w = Inr ((res, fallbacked, err), cb', evs) \<and>
     (cb' = resetState cb \<longleftrightarrow> err = None) \<and>
     (err \<noteq> None \<longrightarrow> fallbacked \<and> cb' = recordFailure cb err (now_recordFailure w))"
proof -
  obtain res fallbacked err evs0 where
    sc: "selectiveCall cb (State cb (now_State_pre w)) w = Inr ((res, fallbacked, err), evs0)"
    using selectiveCall_returns [OF assms(1)] by blast
  then obtain cb' evs where call: "Call cb w = Inr ((res, fallbacked, err), cb', evs)"
    by (simp add: Call_unfold)
  have cb': "cb' = (if fallbacked then recordFailure cb err (now_recordFailure w)
                    else resetState cb)"
    using Call_breaker_after [OF call] .
  have fb: "fallbacked \<longleftrightarrow> err \<noteq> None"
    using sc assms(2) State_not_open_iff [of cb "now_State_pre w"]
    by (auto simp add: selectiveCall_def mayCallFallback_def callService_def
        split: if_splits option.splits selected.splits)
  have ne: "recordFailure cb err (now_recordFailure w) \<noteq> resetState cb"
  proof
    assume "recordFailure cb err (now_recordFailure w) = resetState cb"
    then have "FailureRecord (recordFailure cb err (now_recordFailure w))
                 = FailureRecord (resetState cb)" by simp
    then show False by (simp add: recordFailure_def resetState_def Let_def)
  qed
  from call cb' fb ne show ?thesis by auto
qed

text \<open>
  Claim C3. The claim: the reset (count 0, empty log, no time of last failure) happens
  exactly when the call was a genuine success, never when the target failed or the call
  was rejected while blocked.

  \<^verbatim>\<open>Call\<close> runs \<^verbatim>\<open>resetState\<close> whenever \<^verbatim>\<open>selectiveCall\<close> reports no
  fallback. The breaker that the constructor returns for settings without fallback, called
  while the service returns neither content nor error, returns the error of the empty
  response and takes that branch: the breaker afterwards is the reset of the breaker
  before. What the branch does to a ledger that holds failures shows on a breaker without
  fallback whose ledger holds two (a breaker whose \<^verbatim>\<open>Settings.Fallback\<close> was set to
  nil after two failures): the call is rejected as blocked, and the same call clears the
  ledger and fires the reset hook.
\<close>

theorem Call_without_fallback_resets_on_failure:
  "NewCircuitBreaker no_fallback_settings = Inr fresh_no_fallback \<and>
   Call fresh_no_fallback (world_at t0 (FromResponseChannel empty_response)) =
     Inr ((None, False, Some (CallingError (Errorf ''Service respond is nil''))),
          resetState fresh_no_fallback,
          [ServiceStarted]) \<and>
   State tripped_no_fallback (now_State_pre (world_at t0 FromTimeAfter)) = IsOpen \<and>
   FailureCount tripped_no_fallback = 2 \<and>
   Call tripped_no_fallback (world_at t0 FromTimeAfter) =
     Inr ((None, False, Some (Errorf ''Service was fallbacked due to open state'')),
          resetState tripped_no_fallback,
          [OnStateChangeCalled, OnResetCalled]) \<and>
   resetState tripped_no_fallback =
     \<lparr>Settings = no_fallback_settings, LastFailureTime = zeroTime, FailureCount = 0,
      FailureRecord = []\<rparr>"
proof -
  have "NewCircuitBreaker no_fallback_settings = Inr fresh_no_fallback"
    by (simp add: NewCircuitBreaker_def no_fallback_settings_def demo_settings_def
        fresh_no_fallback_def Let_def)
  moreover have
    "Call fresh_no_fallback (world_at t0 (FromResponseChannel empty_response)) =
     Inr ((None, False, Some (CallingError (Errorf ''Service respond is nil''))),
          resetState fresh_no_fallback,
          [ServiceStarted])"
    by (simp add: eval_defs)
  moreover have
    "State tripped_no_fallback (now_State_pre (world_at t0 FromTimeAfter)) = IsOpen"
    using State_tripped_no_fallback_blocked by (simp add: world_at_def)
  moreover have "FailureCount tripped_no_fallback = 2"
    by (simp add: tripped_no_fallback_def tripped_def)
  moreover have "Call tripped_no_fallback (world_at t0 FromTimeAfter) =
     Inr ((None, False, Some (Errorf ''Service was fallbacked due to open state'')),
          resetState tripped_no_fallback,
          [OnStateChangeCalled, OnResetCalled])"
    by (simp add: eval_defs)
  moreover have "resetState tripped_no_fallback =
     \<lparr>Settings = no_fallback_settings, LastFailureTime = zeroTime, FailureCount = 0,
      FailureRecord = []\<rparr>"
    by (simp add: resetState_def tripped_no_fallback_def tripped_def)
  ultimately show ?thesis by blast
qed

text \<open>
  Claim C7, as stated: a failing call in the Probing state of a breaker whose failure
  count equals the threshold leaves the count at the threshold, and the state after the
  call is Blocked again. Neither holds for the breaker \<open>tripped\<close> (count 2, threshold
  2) probed 4 s after its last failure: the service times out, the fallback answers, the
  count afterwards is 3, and the state derived 200 ns after the failure was recorded is
  \<open>IsHalfOpen\<close>, so no hook fires.
\<close>

theorem Call_probe_failure_counts_past_threshold:
  "FailureCount tripped = FailureThreshold (Settings tripped) \<and>
   State tripped (now_State_pre probe_times_out) = IsHalfOpen \<and>
   Call tripped probe_times_out =
     Inr ((Some ''Relying on a fallback cached content'', True,
           Some (Errorf ''Service was fallbacked due to error: Error when calling service: Service timed out after 2000 milliseconds'')),
          \<lparr>Settings = demo_settings, LastFailureTime = t0 + 6000050000, FailureCount = 3,
           FailureRecord =
             [''first failure'', ''second failure'',
              ''Service was fallbacked due to error: Error when calling service: Service timed out after 2000 milliseconds'']\<rparr>,
          [ServiceStarted, FallbackCalled]) \<and>
   (3 :: int) \<noteq> FailureThreshold (Settings tripped) \<and>
   State \<lparr>Settings = demo_settings, LastFailureTime = t0 + 6000050000, FailureCount = 3,
          FailureRecord =
            [''first failure'', ''second failure'',
             ''Service was fallbacked due to error: Error when calling service: Service timed out after 2000 milliseconds'']\<rparr>
     (now_State_post probe_times_out) = IsHalfOpen"
proof -
  have "FailureCount tripped = FailureThreshold (Settings tripped)"
    "(3 :: int) \<noteq> FailureThreshold (Settings tripped)"
    by (simp_all add: tripped_def demo_settings_def)
  moreover have "State tripped (now_State_pre probe_times_out) = IsHalfOpen"
    by (simp add: eval_defs)
  moreover have "Call tripped probe_times_out =
     Inr ((Some ''Relying on a fallback cached content'', True,
           Some (Errorf ''Service was fallbacked due to error: Error when calling service: Service timed out after 2000 milliseconds'')),
          \<lparr>Settings = demo_settings, LastFailureTime = t0 + 6000050000, FailureCount = 3,
           FailureRecord =
             [''first failure'', ''second failure'',
              ''Service was fallbacked due to error: Error when calling service: Service timed out after 2000 milliseconds'']\<rparr>,
          [ServiceStarted, FallbackCalled])"
    by (simp add: eval_defs)
  moreover have
    "State \<lparr>Settings = demo_settings, LastFailureTime = t0 + 6000050000, FailureCount = 3,
          FailureRecord =
            [''first failure'', ''second failure'',
             ''Service was fallbacked due to error: Error when calling service: Service timed out after 2000 milliseconds'']\<rparr>
     (now_State_post probe_times_out) = IsHalfOpen"
    by (simp add: eval_defs)
  ultimately show ?thesis by blast
qed

text \<open>
  Claim C7, amended. For a breaker with a service and a fallback whose failure count
  equals the threshold (and is below the largest \<^verbatim>\<open>int\<close>), a call made in the
  Probing state whose target fails (timeout, error or empty response) returns via the
  fallback, raises the failure count by one, to the threshold plus one, and sets the
  time of the last failure to the instant the failure is recorded. The state derived
  after the call is not Normal.
\<close>

theorem Call_probe_failure_with_fallback:
  assumes svc: "Service (Settings cb) \<noteq> None"
    and fb: "Fallback (Settings cb) \<noteq> None"
    and count: "FailureCount cb = FailureThreshold (Settings cb)"
    and range: "- (2 ^ 63) \<le> FailureCount cb" "FailureCount cb < 2 ^ 63 - 1"
    and pre: "State cb (now_State_pre w) = IsHalfOpen"
    and fails: "\<not> (\<exists>r c. selected w = FromResponseChannel r \<and> Error r = None \<and>
                        Content r = Some c)"
  shows "\<exists>res err cb' evs.
     Call cb w = Inr ((res, True, err), cb', evs) \<and>
     FailureCount cb' = FailureThreshold (Settings cb) + 1 \<and>
     LastFailureTime cb' = now_recordFailure w \<and>
     State cb' (now_State_post w) \<noteq> IsClosed"
proof -
  obtain r e where cs: "callService cb w = Inr ((r, e), [ServiceStarted])"
    using callService_returns [OF svc] by blast
  have "e \<noteq> None"
  proof
    assume "e = None"
    with cs have "selectiveCall cb IsHalfOpen w = Inr ((r, False, None), [ServiceStarted])"
      by (simp add: selectiveCall_success)
    from selectiveCall_error_nil_iff [OF this] fails show False by simp
  qed
  then obtain e' where e: "e = Some e'" by auto
  from cs e fb obtain res err evs0 where
    sc: "selectiveCall cb IsHalfOpen w = Inr ((res, True, err), evs0)"
    by (auto simp add: selectiveCall_failure)
  define cb' where "cb' = recordFailure cb err (now_recordFailure w)"
  define evs where "evs = evs0 @ notifyState cb' IsHalfOpen (State cb' (now_State_post w))"
  have call: "Call cb w = Inr ((res, True, err), cb', evs)"
    using sc pre by (simp add: Call_unfold cb'_def evs_def)
  have fc: "FailureCount cb' = FailureThreshold (Settings cb) + 1"
    using count range wrap64_id [of "FailureCount cb + 1"]
    by (simp add: cb'_def recordFailure_def Let_def)
  have lf: "LastFailureTime cb' = now_recordFailure w"
    by (simp add: cb'_def recordFailure_def Let_def)
  have st: "Settings cb' = Settings cb"
    by (simp add: cb'_def recordFailure_def Let_def)
  have "State cb' (now_State_post w) \<noteq> IsClosed"
    using fc st by (simp add: State_def Let_def)
  with call fc lf show ?thesis by blast
qed

theorem Call_probe_failure_with_fallback_witness:
  "Service (Settings tripped) \<noteq> None \<and> Fallback (Settings tripped) \<noteq> None \<and>
   FailureCount tripped = FailureThreshold (Settings tripped) \<and>
   State tripped (now_State_pre probe_times_out) = IsHalfOpen \<and>
   selected probe_times_out = FromTimeAfter \<and>
   (\<exists>res err cb' evs.
      Call tripped probe_times_out = Inr ((res, True, err), cb', evs) \<and>
      FailureCount cb' = 3 \<and> LastFailureTime cb' = t0 + 6000050000 \<and>
      State cb' (t0 + 6000050200) \<noteq> IsClosed)"
proof -
  let ?w = "probe_times_out"
  have svc: "Service (Settings tripped) \<noteq> None"
    and fb: "Fallback (Settings tripped) \<noteq> None"
    and count: "FailureCount tripped = FailureThreshold (Settings tripped)"
    and range: "- (2 ^ 63) \<le> FailureCount tripped" "FailureCount tripped < 2 ^ 63 - 1"
    by (simp_all add: tripped_def demo_settings_def)
  have pre: "State tripped (now_State_pre ?w) = IsHalfOpen"
    by (simp add: eval_defs)
  have sel: "selected ?w = FromTimeAfter"
    by (simp add: probe_times_out_def)
  have fails: "\<not> (\<exists>r c. selected ?w = FromResponseChannel r \<and> Error r = None \<and>
                        Content r = Some c)"
    by (simp add: sel)
  from Call_probe_failure_with_fallback [OF svc fb count range pre fails]
  obtain res err cb' evs where call: "Call tripped ?w = Inr ((res, True, err), cb', evs)"
    and fc: "FailureCount cb' = FailureThreshold (Settings tripped) + 1"
    and lf: "LastFailureTime cb' = now_recordFailure ?w"
    and st: "State cb' (now_State_post ?w) \<noteq> IsClosed"
    by blast
  have nf: "now_recordFailure ?w = t0 + 6000050000" "now_State_post ?w = t0 + 6000050200"
    by (simp_all add: probe_times_out_def)
  have "FailureCount cb' = 3"
    using fc by (simp add: tripped_def demo_settings_def)
  moreover have "LastFailureTime cb' = t0 + 6000050000"
    using lf unfolding nf .
  moreover have "State cb' (t0 + 6000050200) \<noteq> IsClosed"
    using st unfolding nf .
  ultimately have "\<exists>res err cb' evs.
      Call tripped ?w = Inr ((res, True, err), cb', evs) \<and>
      FailureCount cb' = 3 \<and> LastFailureTime cb' = t0 + 6000050000 \<and>
      State cb' (t0 + 6000050200) \<noteq> IsClosed"
    using call by blast
  with svc fb count pre sel show ?thesis by blast
qed

subsection \<open>The invariant of the ledger\<close>

lemma recordFailure_inv:
  assumes "FailureCount cb = int (length (FailureRecord cb))"
    and "length (FailureRecord cb) + 1 < 2 ^ 63"
  shows "FailureCount (recordFailure cb err now)
           = int (length (FailureRecord (recordFailure cb err now)))"
proof -
  have "int (length (FailureRecord cb) + 1) < 2 ^ 63"
    using assms(2) by (simp only: of_nat_less_numeral_power_cancel_iff)
  then have "int (length (FailureRecord cb)) + 1 < 2 ^ 63"
    by simp
  then have "wrap64 (FailureCount cb + 1) = FailureCount cb + 1"
    using assms(1) by (intro wrap64_id) auto
  then show ?thesis
    using assms(1) by (simp add: recordFailure_def Let_def)
qed

lemma Call_inv:
  assumes "Call cb w = Inr (r, cb', evs)"
    and "FailureCount cb = int (length (FailureRecord cb))"
    and "length (FailureRecord cb) + 1 < 2 ^ 63"
  shows "FailureCount cb' = int (length (FailureRecord cb')) \<and>
         length (FailureRecord cb') \<le> length (FailureRecord cb) + 1 \<and>
         Settings cb' = Settings cb"
proof -
  obtain res fallbacked err where r: "r = (res, fallbacked, err)"
    by (cases r) auto
  from Call_breaker_after [OF assms(1) [unfolded r]]
  have cb': "cb' = (if fallbacked then recordFailure cb err (now_recordFailure w)
                    else resetState cb)" .
  show ?thesis
  proof (cases fallbacked)
    case True
    with cb' recordFailure_inv [OF assms(2,3)] show ?thesis
      by (simp add: recordFailure_def Let_def)
  next
    case False
    with cb' show ?thesis by (simp add: resetState_def)
  qed
qed

lemma Calls_inv:
  assumes "Service (Settings cb) \<noteq> None"
    and "FailureCount cb = int (length (FailureRecord cb))"
    and "length (FailureRecord cb) + length ws < 2 ^ 63"
  shows "\<exists>cb'. Calls cb ws = Inr cb' \<and>
           FailureCount cb' = int (length (FailureRecord cb'))"
  using assms
proof (induction ws arbitrary: cb)
  case Nil
  then show ?case by simp
next
  case (Cons w ws)
  obtain res fallbacked err evs0 where
    "selectiveCall cb (State cb (now_State_pre w)) w = Inr ((res, fallbacked, err), evs0)"
    using selectiveCall_returns [OF Cons.prems(1)] by blast
  then obtain r cb1 evs where call: "Call cb w = Inr (r, cb1, evs)"
    by (simp add: Call_unfold)
  have b: "length (FailureRecord cb) + 1 < 2 ^ 63"
    using Cons.prems(3) by simp
  from Call_inv [OF call Cons.prems(2) b]
  have i: "FailureCount cb1 = int (length (FailureRecord cb1))"
    and l: "length (FailureRecord cb1) \<le> length (FailureRecord cb) + 1"
    and s: "Settings cb1 = Settings cb" by simp_all
  have "length (FailureRecord cb1) + length ws < 2 ^ 63"
    using l Cons.prems(3) by simp
  from Cons.IH [OF _ i this] s Cons.prems(1)
  obtain cb' where "Calls cb1 ws = Inr cb'"
    "FailureCount cb' = int (length (FailureRecord cb'))" by auto
  with call show ?case by simp
qed

text \<open>
  Claim C10. A breaker returned by the constructor, after any sequence of calls made one
  after the other, has a failure count that is not negative and equals the number of
  entries of the failure log; no call of the sequence panics. The sequence has fewer than
  \<open>2^63\<close> calls: the count is a 64-bit \<^verbatim>\<open>int\<close>, and a Go slice cannot hold more
  entries than that.
\<close>

theorem Calls_failure_count_is_log_length:
  assumes "NewCircuitBreaker s = Inr cb0" and "length ws < 2 ^ 63"
  shows "\<exists>cb. Calls cb0 ws = Inr cb \<and> 0 \<le> FailureCount cb \<and>
           FailureCount cb = int (length (FailureRecord cb))"
proof -
  have svc: "Service (Settings cb0) \<noteq> None"
    and c: "FailureCount cb0 = 0" and r: "FailureRecord cb0 = []"
    using assms(1)
    by (auto simp add: NewCircuitBreaker_def Let_def split: if_splits)
  from Calls_inv [OF svc, of ws] c r assms(2)
  obtain cb where "Calls cb0 ws = Inr cb"
    "FailureCount cb = int (length (FailureRecord cb))" by auto
  then show ?thesis by auto
qed

theorem Calls_failure_count_is_log_length_witness:
  "length [world_at t0 FromTimeAfter, world_at (t0 + 5000) (FromResponseChannel failing)]
     < 2 ^ 63 \<and>
   (\<exists>cb0. NewCircuitBreaker demo_settings = Inr cb0 \<and>
      (\<exists>cb. Calls cb0 [world_at t0 FromTimeAfter,
                       world_at (t0 + 5000) (FromResponseChannel failing)] = Inr cb \<and>
         0 \<le> FailureCount cb \<and> FailureCount cb = int (length (FailureRecord cb))))"
proof -
  let ?ws = "[world_at t0 FromTimeAfter, world_at (t0 + 5000) (FromResponseChannel failing)]"
  have n: "NewCircuitBreaker demo_settings =
      Inr \<lparr>Settings = demo_settings, LastFailureTime = zeroTime, FailureCount = 0,
           FailureRecord = []\<rparr>"
    by (simp add: NewCircuitBreaker_def demo_settings_def Let_def)
  have l: "length ?ws < 2 ^ 63" by simp
  from Calls_failure_count_is_log_length [OF n l] n l show ?thesis by blast
qed

end
